theory Spec2Isabelle
  imports Main "HOL-Library.Word"
begin

section \<open>Strings, bytes and the string primitives used by FileHelper\<close>

text \<open>
  A Python \<open>str\<close> is a sequence of Unicode code points, a \<open>bytes\<close> value a sequence of
  octets. Decoding turns the second into the first, so the two are kept apart: code points
  are natural numbers, octets are 8-bit words. The literals of the source are written as
  HOL strings and embedded with \<open>lit\<close>.
\<close>

type_synonym pystr = "nat list"
type_synonym byte = "8 word"

definition lit :: "string \<Rightarrow> pystr" where
  "lit s = map of_char s"

text \<open>
  \<open>str.isspace\<close> on one code point: the characters that \<open>str.strip()\<close> and
  \<open>str.split()\<close> without arguments treat as whitespace (bidirectional class WS, B or S,
  or category Zs).
\<close>

definition isspace :: "nat \<Rightarrow> bool" where
  "isspace c = ((9 \<le> c \<and> c \<le> 13) \<or> (28 \<le> c \<and> c \<le> 32) \<or> c = 0x85 \<or> c = 0xA0
      \<or> c = 0x1680 \<or> (0x2000 \<le> c \<and> c \<le> 0x200A) \<or> c = 0x2028 \<or> c = 0x2029
      \<or> c = 0x202F \<or> c = 0x205F \<or> c = 0x3000)"

definition nonspace :: "nat \<Rightarrow> bool" where
  "nonspace c = (\<not> isspace c)"

text \<open>\<open>s.strip()\<close>: whitespace removed at both ends.\<close>

definition str_strip :: "pystr \<Rightarrow> pystr" where
  "str_strip s = rev (dropWhile isspace (rev (dropWhile isspace s)))"

text \<open>
  \<open>s.split()\<close>: skip whitespace, take the run of non-whitespace characters that follows as
  the next word, and go on behind it, until the string is used up.
\<close>

function str_split :: "pystr \<Rightarrow> pystr list" where
  "str_split s =
     (case dropWhile isspace s of
        [] \<Rightarrow> []
      | c # cs \<Rightarrow> (c # takeWhile nonspace cs) # str_split (dropWhile nonspace cs))"
  by pat_completeness auto
termination
proof (relation "measure length", goal_cases)
  case 1
  show ?case by simp
next
  case (2 s c cs)
  have "length (dropWhile nonspace cs) \<le> length cs"
    by (rule length_dropWhile_le)
  moreover have "length (dropWhile isspace s) \<le> length s"
    by (rule length_dropWhile_le)
  ultimately show ?case using 2 by simp
qed

declare str_split.simps [simp del]

text \<open>\<open>sep.join(parts)\<close>.\<close>

fun str_join :: "'a list \<Rightarrow> 'a list list \<Rightarrow> 'a list" where
  "str_join sep [] = []"
| "str_join sep [x] = x"
| "str_join sep (x # y # zs) = x @ sep @ str_join sep (y # zs)"

text \<open>
  \<open>s.lower()\<close>. The source applies it to a file name only to compare the end of the result
  with the ASCII suffixes below. The letters A to Z are mapped to a to z here; every other
  code point is left as it is, since no other code point is lowered to a character that
  occurs in one of those suffixes.
\<close>

definition str_lower :: "pystr \<Rightarrow> pystr" where
  "str_lower s = map (\<lambda>c. if 65 \<le> c \<and> c \<le> 90 then c + 32 else c) s"

definition str_endswith :: "pystr \<Rightarrow> pystr \<Rightarrow> bool" where
  "str_endswith s suf =
     (length suf \<le> length s \<and> drop (length s - length suf) s = suf)"

text \<open>\<open>s.endswith(exts)\<close> for a tuple, and \<open>any(s.endswith(ext) for ext in exts)\<close>.\<close>

definition endswith_any :: "pystr \<Rightarrow> string list \<Rightarrow> bool" where
  "endswith_any s exts = list_ex (\<lambda>ext. str_endswith s (lit ext)) exts"


section \<open>Decoding\<close>

text \<open>
  \<open>bytes.decode(encoding)\<close> with the default strict error handling either yields a string,
  raises \<open>UnicodeDecodeError\<close>, or raises \<open>LookupError\<close> for an encoding it does not know.
\<close>

datatype decode_outcome = Decoded pystr | UnicodeDecodeError | LookupError

definition is_cont :: "nat \<Rightarrow> nat \<Rightarrow> nat \<Rightarrow> bool" where
  "is_cont lo hi b = (lo \<le> b \<and> b \<le> hi)"

text \<open>
  Strict UTF-8 on the octet values: shortest form only, no surrogates, nothing above
  U+10FFFF. The bounds on the second octet after E0, ED, F0 and F4 are what excludes
  overlong forms, surrogates and values out of range.
\<close>

fun utf8_decode :: "nat list \<Rightarrow> pystr option" where
  "utf8_decode [] = Some []"
| "utf8_decode (b0 # bs) =
     (if b0 < 0x80 then map_option ((#) b0) (utf8_decode bs)
      else if 0xC2 \<le> b0 \<and> b0 \<le> 0xDF then
        (case bs of
           b1 # r \<Rightarrow>
             if is_cont 0x80 0xBF b1
             then map_option ((#) ((b0 - 0xC0) * 64 + (b1 - 0x80))) (utf8_decode r)
             else None
         | _ \<Rightarrow> None)
      else if 0xE0 \<le> b0 \<and> b0 \<le> 0xEF then
        (case bs of
           b1 # b2 # r \<Rightarrow>
             if is_cont (if b0 = 0xE0 then 0xA0 else 0x80) (if b0 = 0xED then 0x9F else 0xBF) b1
                \<and> is_cont 0x80 0xBF b2
             then map_option
                    ((#) ((b0 - 0xE0) * 4096 + (b1 - 0x80) * 64 + (b2 - 0x80)))
                    (utf8_decode r)
             else None
         | _ \<Rightarrow> None)
      else if 0xF0 \<le> b0 \<and> b0 \<le> 0xF4 then
        (case bs of
           b1 # b2 # b3 # r \<Rightarrow>
             if is_cont (if b0 = 0xF0 then 0x90 else 0x80) (if b0 = 0xF4 then 0x8F else 0xBF) b1
                \<and> is_cont 0x80 0xBF b2 \<and> is_cont 0x80 0xBF b3
             then map_option
                    ((#) ((b0 - 0xF0) * 262144 + (b1 - 0x80) * 4096 + (b2 - 0x80) * 64
                          + (b3 - 0x80)))
                    (utf8_decode r)
             else None
         | _ \<Rightarrow> None)
      else None)"

text \<open>latin-1, and iso-8859-1 which is another name of it: octet \<open>b\<close> is code point \<open>b\<close>.\<close>

definition latin1_decode :: "byte list \<Rightarrow> pystr" where
  "latin1_decode bs = map unat bs"

text \<open>
  cp1252 agrees with latin-1 except on 80 to 9F, where it has its own characters and
  leaves five octets (81, 8D, 8F, 90, 9D) undefined.
\<close>

definition cp1252_high :: "nat option list" where
  "cp1252_high =
     [Some 0x20AC, None, Some 0x201A, Some 0x0192, Some 0x201E, Some 0x2026, Some 0x2020,
      Some 0x2021, Some 0x02C6, Some 0x2030, Some 0x0160, Some 0x2039, Some 0x0152, None,
      Some 0x017D, None, None, Some 0x2018, Some 0x2019, Some 0x201C, Some 0x201D,
      Some 0x2022, Some 0x2013, Some 0x2014, Some 0x02DC, Some 0x2122, Some 0x0161,
      Some 0x203A, Some 0x0153, None, Some 0x017E, Some 0x0178]"

definition cp1252_char :: "nat \<Rightarrow> nat option" where
  "cp1252_char b = (if 0x80 \<le> b \<and> b < 0xA0 then cp1252_high ! (b - 0x80) else Some b)"

fun cp1252_decode :: "nat list \<Rightarrow> pystr option" where
  "cp1252_decode [] = Some []"
| "cp1252_decode (b # bs) =
     (case cp1252_char b of
        None \<Rightarrow> None
      | Some c \<Rightarrow> map_option ((#) c) (cp1252_decode bs))"

definition of_decoded :: "pystr option \<Rightarrow> decode_outcome" where
  "of_decoded r = (case r of Some s \<Rightarrow> Decoded s | None \<Rightarrow> UnicodeDecodeError)"

definition bytes_decode :: "byte list \<Rightarrow> string \<Rightarrow> decode_outcome" where
  "bytes_decode file_content encoding =
     (if encoding = ''utf-8'' then of_decoded (utf8_decode (map unat file_content))
      else if encoding = ''latin-1'' \<or> encoding = ''iso-8859-1''
        then Decoded (latin1_decode file_content)
      else if encoding = ''cp1252'' then of_decoded (cp1252_decode (map unat file_content))
      else LookupError)"


section \<open>Errors, uploads and the extraction capability\<close>

text \<open>
  The source raises \<open>ValueError(message)\<close> and \<open>HTTPException(status_code, detail)\<close>. A
  detail that is a fixed text is kept as that text; a detail built by an f-string from a
  file name and the text of a caught exception is kept as the name of its template with
  the interpolated values:
  \<^item> \<open>ErrorProcessingFile name cause\<close>: \<open>Error processing file '{name}': {cause}\<close>
  \<^item> \<open>FailedToExtract name cause\<close>: \<open>Failed to extract text from '{name}': {cause}\<close>
  \<^item> \<open>NoTextExtracted name\<close>: \<open>No text could be extracted from the file '{name}'\<close>
  \<^item> \<open>FailedToProcessFile name e\<close>: \<open>Failed to process file '{name}': {e!s}\<close>
\<close>

datatype error =
    ValueError string
  | HTTPException (status_code: nat) (detail: message)
and message =
    Literal string
  | ErrorProcessingFile pystr string
  | FailedToExtract pystr string
  | NoTextExtracted pystr
  | FailedToProcessFile "pystr option" error

text \<open>
  An \<open>UploadFile\<close>: its \<open>filename\<close>, which may be \<open>None\<close>, and what \<open>await file.read()\<close>
  gives: the payload, or the text of the exception it raises. Every upload is taken to be
  an open handle of its own; \<open>file.close()\<close> does not fail.
\<close>

record upload_file =
  filename :: "pystr option"
  payload :: "string + byte list"

text \<open>What a call does to the uploads it is given, in the order it does it.\<close>

datatype event = FileRead upload_file | FileClosed upload_file

text \<open>
  \<open>AsyncTextExtractor().extract(source, filename)\<close> of the textxtract library: it returns
  the extracted text or raises (\<open>Inl\<close> holds the text of the exception). The module-level
  name \<open>AsyncTextExtractor\<close> is \<open>None\<close> when the library could not be imported.
\<close>

type_synonym extractor = "byte list \<Rightarrow> pystr \<Rightarrow> string + pystr"


section \<open>FileHelper\<close>

definition MAX_FILE_SIZE :: nat where
  "MAX_FILE_SIZE = 10 * 1024 * 1024"

definition SUPPORTED_TEXT_EXTENSIONS :: "string list" where
  "SUPPORTED_TEXT_EXTENSIONS = [''.txt'', ''.rtf'']"

definition SUPPORTED_DOC_EXTENSIONS :: "string list" where
  "SUPPORTED_DOC_EXTENSIONS = [''.pdf'', ''.doc'', ''.docx'']"

definition SUPPORTED_EXTENSIONS :: "string list" where
  "SUPPORTED_EXTENSIONS = SUPPORTED_TEXT_EXTENSIONS @ SUPPORTED_DOC_EXTENSIONS"

definition ENCODING_FALLBACKS :: "string list" where
  "ENCODING_FALLBACKS = [''utf-8'', ''latin-1'', ''cp1252'', ''iso-8859-1'']"

subsection \<open>\<open>_process_text_input\<close>\<close>

text \<open>The two assignments \<open>text = text.strip()\<close> and \<open>text = " ".join(text.split())\<close>.\<close>

definition normalize :: "pystr \<Rightarrow> pystr" where
  "normalize text = str_join (lit '' '') (str_split (str_strip text))"

definition process_text_input :: "pystr \<Rightarrow> error + pystr" where
  "process_text_input text =
     (let text = normalize text
      in if text = [] then Inl (ValueError ''Provided text is empty after processing'')
         else Inr text)"

subsection \<open>\<open>_validate_file_type\<close> and \<open>_validate_file_size\<close>\<close>

definition validate_file_type :: "pystr \<Rightarrow> error + unit" where
  "validate_file_type name =
     (if \<not> endswith_any (str_lower name) SUPPORTED_EXTENSIONS
      then Inl (HTTPException 415
             (Literal (''Unsupported file type. Supported types: ''
                        @ str_join '', '' SUPPORTED_EXTENSIONS)))
      else Inr ())"

text \<open>
  The detail of the 413 error formats \<open>MAX_FILE_SIZE / 1024 / 1024\<close>, which is exactly 10,
  with one decimal.
\<close>

definition validate_file_size :: "byte list \<Rightarrow> pystr \<Rightarrow> error + unit" where
  "validate_file_size file_content name =
     (let file_size = length file_content
      in if file_size > MAX_FILE_SIZE
         then Inl (HTTPException 413 (Literal ''File too large. Maximum size is 10.0MB''))
         else if file_size = 0 then Inl (HTTPException 400 (Literal ''File is empty''))
         else Inr ())"

subsection \<open>\<open>_decode_text_file\<close>\<close>

text \<open>
  The loop over the encodings: the first one that decodes returns; a decode error or an
  unknown encoding goes on to the next; \<open>None\<close> is falling out of the loop.
\<close>

fun decode_loop :: "string list \<Rightarrow> byte list \<Rightarrow> pystr option" where
  "decode_loop [] file_content = None"
| "decode_loop (encoding # rest) file_content =
     (case bytes_decode file_content encoding of
        Decoded decoded \<Rightarrow> Some decoded
      | UnicodeDecodeError \<Rightarrow> decode_loop rest file_content
      | LookupError \<Rightarrow> decode_loop rest file_content)"

definition decode_text_file :: "byte list \<Rightarrow> pystr \<Rightarrow> error + pystr" where
  "decode_text_file file_content name =
     (case decode_loop ENCODING_FALLBACKS file_content of
        Some decoded \<Rightarrow> Inr decoded
      | None \<Rightarrow>
          Inl (HTTPException 400
                (Literal (''Unable to decode text file. Tried encodings:  ''
                           @ str_join '', '' ENCODING_FALLBACKS))))"

subsection \<open>\<open>_extract_text_from_file\<close>\<close>

definition extract_text_from_file ::
    "extractor option \<Rightarrow> byte list \<Rightarrow> pystr \<Rightarrow> error + pystr" where
  "extract_text_from_file AsyncTextExtractor file_content name =
     (case AsyncTextExtractor of
        None \<Rightarrow>
          Inl (HTTPException 500
                (Literal ''Text extraction not available. Please install textxtract library.''))
      | Some extract \<Rightarrow>
          (case extract file_content name of
             Inl cause \<Rightarrow> Inl (HTTPException 500 (FailedToExtract name cause))
           | Inr extracted_text \<Rightarrow>
               if extracted_text = [] \<or> str_strip extracted_text = []
               then Inl (HTTPException 400 (NoTextExtracted name))
               else Inr (str_strip extracted_text)))"

subsection \<open>\<open>_process_file_input\<close>\<close>

text \<open>
  The result comes with the events on the upload. The \<open>finally\<close> clause closes the file on
  every path; an exception of \<open>read\<close> is the one that is not an \<open>HTTPException\<close> and is
  wrapped into the 500 error.
\<close>

definition process_file_input ::
    "extractor option \<Rightarrow> upload_file \<Rightarrow> (error + pystr) \<times> event list" where
  "process_file_input AsyncTextExtractor file =
     (case filename file of
        None \<Rightarrow>
          (Inl (HTTPException 400 (Literal ''File must have a filename'')), [FileClosed file])
      | Some name \<Rightarrow>
          if name = []
          then (Inl (HTTPException 400 (Literal ''File must have a filename'')),
                [FileClosed file])
          else
            (case validate_file_type name of
               Inl e \<Rightarrow> (Inl e, [FileClosed file])
             | Inr _ \<Rightarrow>
                 (case payload file of
                    Inl cause \<Rightarrow>
                      (Inl (HTTPException 500 (ErrorProcessingFile name cause)),
                       [FileRead file, FileClosed file])
                  | Inr file_content \<Rightarrow>
                      (case validate_file_size file_content name of
                         Inl e \<Rightarrow> (Inl e, [FileRead file, FileClosed file])
                       | Inr _ \<Rightarrow>
                           if endswith_any (str_lower name) SUPPORTED_TEXT_EXTENSIONS
                           then (decode_text_file file_content name,
                                 [FileRead file, FileClosed file])
                           else (extract_text_from_file AsyncTextExtractor file_content name,
                                 [FileRead file, FileClosed file])))))"

subsection \<open>\<open>prepare_text\<close>\<close>

text \<open>The truth value of \<open>text\<close>: \<open>None\<close> and the empty string are false.\<close>

definition truthy :: "pystr option \<Rightarrow> bool" where
  "truthy text = (case text of None \<Rightarrow> False | Some t \<Rightarrow> t \<noteq> [])"

text \<open>
  \<open>file\<close> is true when it is not \<open>None\<close>. A true \<open>text\<close> passes the first check whatever
  \<open>file\<close> is and is processed; otherwise the first check raises when there is no file, and
  the file is processed when there is one. Processing the text touches no upload. The
  three statements of the source in their order are \<open>prepare_text_as_written\<close> below.
\<close>

definition prepare_text ::
    "extractor option \<Rightarrow> pystr option \<Rightarrow> upload_file option
       \<Rightarrow> (error + pystr) \<times> event list" where
  "prepare_text AsyncTextExtractor text file =
     (case text of
        Some (c # cs) \<Rightarrow> (process_text_input (c # cs), [])
      | _ \<Rightarrow>
          (case file of
             None \<Rightarrow> (Inl (ValueError ''Either 'text' or 'file' must be provided''), [])
           | Some f \<Rightarrow> process_file_input AsyncTextExtractor f))"

subsection \<open>\<open>prepare_text_from_files\<close>\<close>

text \<open>
  The loop body appends the text of a file to \<open>results\<close>; an exception of
  \<open>_process_file_input\<close> is caught and replaced by a 400 error that carries the file name
  and the text of the caught exception, which ends the loop.
\<close>

fun files_loop ::
    "extractor option \<Rightarrow> upload_file list \<Rightarrow> pystr list
       \<Rightarrow> (error + pystr list) \<times> event list" where
  "files_loop AsyncTextExtractor [] results = (Inr results, [])"
| "files_loop AsyncTextExtractor (file # rest) results =
     (case process_file_input AsyncTextExtractor file of
        (Inl e, evs) \<Rightarrow>
          (Inl (HTTPException 400 (FailedToProcessFile (filename file) e)), evs)
      | (Inr text, evs) \<Rightarrow>
          (case files_loop AsyncTextExtractor rest (results @ [text]) of
             (r, evs') \<Rightarrow> (r, evs @ evs')))"

definition prepare_text_from_files ::
    "extractor option \<Rightarrow> upload_file list \<Rightarrow> (error + pystr list) \<times> event list" where
  "prepare_text_from_files AsyncTextExtractor files =
     (if files = [] then (Inl (ValueError ''At least one file must be provided''), [])
      else files_loop AsyncTextExtractor files [])"


section \<open>Sample inputs\<close>

text \<open>
  Uploads and an extraction capability on which the statements below are evaluated. The
  capability returns blank text for a payload of four octets and a short text with
  whitespace around and inside it for any other payload.
\<close>

definition notes_txt :: upload_file where
  "notes_txt = \<lparr>filename = Some (lit ''notes.txt''), payload = Inr [0x68, 0x65, 0x6C, 0x6C, 0x6F]\<rparr>"

definition scan_pdf :: upload_file where
  "scan_pdf = \<lparr>filename = Some (lit ''scan.PDF''), payload = Inr [0x25, 0x50, 0x44, 0x46]\<rparr>"

definition sample_extract :: extractor where
  "sample_extract file_content name =
     (if length file_content = 4 then Inr [32, 10, 32] else Inr [32, 97, 32, 9, 98, 10])"

definition report_docx :: upload_file where
  "report_docx = \<lparr>filename = Some (lit ''Report.DOCX''), payload = Inr [0x50, 0x4B]\<rparr>"

definition report_xlsx :: upload_file where
  "report_xlsx = \<lparr>filename = Some (lit ''report.xlsx''), payload = Inr [0x50, 0x4B]\<rparr>"

definition huge_txt :: upload_file where
  "huge_txt = \<lparr>filename = Some (lit ''huge.txt''),
                 payload = Inr (replicate 10485761 0x61)\<rparr>"

section \<open>Properties of the string primitives\<close>

lemma isspace_space: "isspace 32"
  by (simp add: isspace_def)

lemma lit_space: "lit '' '' = [32]"
  by (simp add: lit_def)

lemma str_split_Nil: "str_split [] = []"
  by (simp add: str_split.simps)

lemma str_split_space: "isspace c \<Longrightarrow> str_split (c # s) = str_split s"
  by (simp add: str_split.simps [of "c # s"] str_split.simps [of s])

lemma str_split_word:
  assumes "\<not> isspace c" and "\<forall>x\<in>set cs. \<not> isspace x" and "r = [] \<or> isspace (hd r)"
  shows "str_split (c # cs @ r) = (c # cs) # str_split r"
proof -
  have t: "takeWhile nonspace (cs @ r) = cs"
    using assms(2,3) by (cases r) (simp_all add: nonspace_def takeWhile_append2)
  have d: "dropWhile nonspace (cs @ r) = r"
    using assms(2,3) by (cases r) (simp_all add: nonspace_def dropWhile_append2)
  show ?thesis
    using assms(1) by (simp add: str_split.simps [of "c # cs @ r"] t d)
qed

lemma str_split_words:
  "w \<in> set (str_split s) \<Longrightarrow> w \<noteq> [] \<and> (\<forall>c\<in>set w. \<not> isspace c)"
proof (induction s rule: str_split.induct)
  case (1 s)
  show ?case
  proof (cases "dropWhile isspace s")
    case Nil
    with 1(2) show ?thesis by (simp add: str_split.simps [of s])
  next
    case (Cons c cs)
    have c: "\<not> isspace c"
      using hd_dropWhile [of isspace s] Cons by simp
    from 1(2) Cons have "w = c # takeWhile nonspace cs \<or> w \<in> set (str_split (dropWhile nonspace cs))"
      by (simp add: str_split.simps [of s])
    then show ?thesis
    proof
      assume "w = c # takeWhile nonspace cs"
      then show ?thesis using c by (auto simp: nonspace_def dest: set_takeWhileD)
    next
      assume "w \<in> set (str_split (dropWhile nonspace cs))"
      then show ?thesis using 1(1) [OF Cons] by simp
    qed
  qed
qed

lemma str_split_join:
  "\<forall>w\<in>set ws. w \<noteq> [] \<and> (\<forall>c\<in>set w. \<not> isspace c) \<Longrightarrow> str_split (str_join [32] ws) = ws"
proof (induction "[32::nat]" ws rule: str_join.induct)
  case 1
  show ?case by (simp add: str_split_Nil)
next
  case (2 x)
  then obtain c cs where x: "x = c # cs" by (cases x) auto
  with 2 have "str_split (c # cs @ []) = (c # cs) # str_split []"
    by (intro str_split_word) auto
  then show ?case by (simp add: x str_split_Nil)
next
  case (3 x y zs)
  then obtain c cs where x: "x = c # cs" by (cases x) auto
  with 3(2) have "str_split (c # cs @ (32 # str_join [32] (y # zs)))
        = (c # cs) # str_split (32 # str_join [32] (y # zs))"
    by (intro str_split_word) (auto simp: isspace_space)
  moreover have "str_split (32 # str_join [32] (y # zs)) = str_split (str_join [32] (y # zs))"
    by (rule str_split_space [OF isspace_space])
  moreover have "str_split (str_join [32] (y # zs)) = y # zs"
    using 3 by simp
  ultimately show ?case by (simp add: x)
qed

lemma str_strip_id:
  "s = [] \<or> (\<not> isspace (hd s) \<and> \<not> isspace (last s)) \<Longrightarrow> str_strip s = s"
proof (cases s)
  case Nil
  then show ?thesis by (simp add: str_strip_def)
next
  case (Cons c cs)
  assume "s = [] \<or> (\<not> isspace (hd s) \<and> \<not> isspace (last s))"
  with Cons have h: "\<not> isspace c" and l: "\<not> isspace (last s)" by auto
  have "dropWhile isspace s = s" using h Cons by simp
  moreover have "dropWhile isspace (rev s) = rev s"
    using l Cons by (cases "rev s") (auto simp: hd_rev [symmetric])
  ultimately show ?thesis by (simp add: str_strip_def)
qed

lemma str_join_ends:
  "ws \<noteq> [] \<Longrightarrow> \<forall>w\<in>set ws. w \<noteq> [] \<Longrightarrow>
     str_join sep ws \<noteq> [] \<and> hd (str_join sep ws) = hd (hd ws)
       \<and> last (str_join sep ws) = last (last ws)"
  by (induction sep ws rule: str_join.induct) auto

lemma str_join_trimmed:
  assumes "\<forall>w\<in>set ws. w \<noteq> [] \<and> (\<forall>c\<in>set w. \<not> isspace c)"
  shows "str_join sep ws = [] \<or> (\<not> isspace (hd (str_join sep ws)) \<and> \<not> isspace (last (str_join sep ws)))"
proof (cases ws)
  case Nil
  then show ?thesis by simp
next
  case (Cons w ws')
  then have ne: "ws \<noteq> []" by simp
  have "hd ws \<in> set ws" "last ws \<in> set ws" using ne by simp_all
  then have "\<not> isspace (hd (hd ws))" "\<not> isspace (last (last ws))"
    using assms by (metis hd_in_set, metis last_in_set)
  then show ?thesis using str_join_ends [OF ne, of sep] assms by simp
qed

lemma normalize_fixed: "normalize (normalize t) = normalize t"
proof -
  let ?ws = "str_split (str_strip t)"
  have w: "\<forall>w\<in>set ?ws. w \<noteq> [] \<and> (\<forall>c\<in>set w. \<not> isspace c)"
    using str_split_words by blast
  have "str_strip (str_join [32] ?ws) = str_join [32] ?ws"
    by (rule str_strip_id [OF str_join_trimmed [OF w]])
  moreover have "str_split (str_join [32] ?ws) = ?ws"
    by (rule str_split_join [OF w])
  ultimately show ?thesis by (simp add: normalize_def lit_space)
qed

lemma str_split_dropWhile: "str_split (dropWhile isspace s) = str_split s"
  by (simp add: str_split.simps [of "dropWhile isspace s"] str_split.simps [of s])

lemma rev_dropWhile_takeWhile:
  "xs = rev (dropWhile P (rev xs)) @ rev (takeWhile P (rev xs))"
proof -
  have "rev (rev xs) = rev (takeWhile P (rev xs) @ dropWhile P (rev xs))"
    by (simp only: takeWhile_dropWhile_id)
  then show ?thesis by (simp only: rev_append rev_rev_ident)
qed

lemma str_split_all_space:
  assumes "\<forall>c\<in>set r. isspace c"
  shows "str_split r = []"
proof -
  have d: "dropWhile isspace r = []" using assms by simp
  show ?thesis by (simp only: str_split.simps [of r] d list.case)
qed

lemma str_split_trailing:
  "\<forall>c\<in>set r. isspace c \<Longrightarrow> str_split (s @ r) = str_split s"
proof (induction s rule: str_split.induct)
  case (1 s)
  show ?case
  proof (cases "dropWhile isspace s")
    case Nil
    then have "\<forall>c\<in>set s. isspace c" by simp
    then have "\<forall>c\<in>set (s @ r). isspace c" using 1(2) by auto
    then have "str_split (s @ r) = []" by (rule str_split_all_space)
    moreover have "str_split s = []" by (simp only: str_split.simps [of s] Nil list.case)
    ultimately show ?thesis by simp
  next
    case (Cons c cs)
    then have ex: "\<exists>x\<in>set s. \<not> isspace x"
      by (metis dropWhile_eq_Nil_conv list.distinct(1))
    have d: "dropWhile isspace (s @ r) = c # cs @ r"
      using ex Cons by (auto simp: dropWhile_append1)
    have r: "takeWhile nonspace r = []" "dropWhile nonspace r = r"
      using 1(2) by (cases r; simp add: nonspace_def)+
    show ?thesis
    proof (cases "\<forall>x\<in>set cs. nonspace x")
      case True
      then have t: "takeWhile nonspace (cs @ r) = cs" "dropWhile nonspace (cs @ r) = r"
        "takeWhile nonspace cs = cs" "dropWhile nonspace cs = []"
        using r by (simp_all add: takeWhile_append2 dropWhile_append2)
      have "str_split (s @ r) = (c # cs) # str_split r"
        by (simp only: str_split.simps [of "s @ r"] d list.case t)
      moreover have "str_split s = (c # cs) # str_split []"
        by (simp only: str_split.simps [of s] Cons list.case t)
      ultimately show ?thesis
        using str_split_all_space [OF 1(2)] by (simp add: str_split_Nil)
    next
      case False
      then have "takeWhile nonspace (cs @ r) = takeWhile nonspace cs"
        "dropWhile nonspace (cs @ r) = dropWhile nonspace cs @ r"
        by (auto simp: takeWhile_append1 dropWhile_append1)
      then show ?thesis
        using d Cons 1(1) [OF Cons 1(2)]
        by (simp add: str_split.simps [of "s @ r"] str_split.simps [of s])
    qed
  qed
qed

lemma str_strip_decomp:
  "\<exists>l r. s = l @ str_strip s @ r \<and> (\<forall>c\<in>set l. isspace c) \<and> (\<forall>c\<in>set r. isspace c)"
proof -
  let ?d = "dropWhile isspace s"
  have 1: "s = takeWhile isspace s @ ?d" by simp
  have 2: "?d = str_strip s @ rev (takeWhile isspace (rev ?d))"
    unfolding str_strip_def by (rule rev_dropWhile_takeWhile)
  have "s = takeWhile isspace s @ str_strip s @ rev (takeWhile isspace (rev ?d))"
    using 1 2 by metis
  moreover have "\<forall>c\<in>set (takeWhile isspace s). isspace c"
    by (auto dest: set_takeWhileD)
  moreover have "\<forall>c\<in>set (rev (takeWhile isspace (rev ?d))). isspace c"
    by (auto dest: set_takeWhileD)
  ultimately show ?thesis by blast
qed

lemma str_strip_trimmed:
  "str_strip s = [] \<or> (\<not> isspace (hd (str_strip s)) \<and> \<not> isspace (last (str_strip s)))"
proof (cases "str_strip s = []")
  case True
  then show ?thesis by simp
next
  case False
  let ?d = "dropWhile isspace s"
  let ?e = "dropWhile isspace (rev ?d)"
  from False have e: "?e \<noteq> []" by (simp add: str_strip_def)
  then have l: "\<not> isspace (hd ?e)" by (rule hd_dropWhile)
  have last: "last (str_strip s) = hd ?e"
    using e by (simp add: str_strip_def last_rev)
  from e have d: "?d \<noteq> []" by (cases "?d = []") simp_all
  then have hd: "\<not> isspace (hd ?d)" by (rule hd_dropWhile)
  obtain r where r: "?d = str_strip s @ r"
    using rev_dropWhile_takeWhile [of ?d isspace] unfolding str_strip_def by blast
  then have "hd (str_strip s) = hd ?d" using False by (metis hd_append2)
  then show ?thesis using hd l last by simp
qed

lemma str_split_strip: "str_split (str_strip s) = str_split s"
proof -
  let ?d = "dropWhile isspace s"
  have 2: "?d = str_strip s @ rev (takeWhile isspace (rev ?d))"
    unfolding str_strip_def by (rule rev_dropWhile_takeWhile)
  have "\<forall>c\<in>set (rev (takeWhile isspace (rev ?d))). isspace c"
    by (auto dest: set_takeWhileD)
  then have "str_split (str_strip s @ rev (takeWhile isspace (rev ?d))) = str_split (str_strip s)"
    by (rule str_split_trailing)
  with 2 have "str_split ?d = str_split (str_strip s)" by simp
  then show ?thesis by (simp add: str_split_dropWhile)
qed

lemma concat_str_split: "concat (str_split s) = filter nonspace s"
proof (induction s rule: str_split.induct)
  case (1 s)
  have s: "s = takeWhile isspace s @ dropWhile isspace s" by simp
  have f0: "filter nonspace (takeWhile isspace s) = []"
    by (auto simp: filter_empty_conv nonspace_def dest: set_takeWhileD)
  have fs: "filter nonspace s = filter nonspace (dropWhile isspace s)"
    using f0 by (metis s filter_append append_Nil)
  show ?case
  proof (cases "dropWhile isspace s")
    case Nil
    then show ?thesis using fs by (simp only: str_split.simps [of s] list.case concat.simps filter.simps)
  next
    case (Cons c cs)
    have c: "nonspace c"
      using hd_dropWhile [of isspace s] Cons by (simp add: nonspace_def)
    have cs: "cs = takeWhile nonspace cs @ dropWhile nonspace cs" by simp
    have ft: "filter nonspace (takeWhile nonspace cs) = takeWhile nonspace cs"
      by (auto simp: filter_id_conv dest: set_takeWhileD)
    have "filter nonspace cs = takeWhile nonspace cs @ filter nonspace (dropWhile nonspace cs)"
      using ft by (metis cs filter_append)
    then show ?thesis
      using fs Cons c 1 [OF Cons] by (simp add: str_split.simps [of s])
  qed
qed


section \<open>Evaluation and auxiliary facts about FileHelper\<close>

lemma normalize_all_space:
  assumes "\<forall>c\<in>set t. isspace c"
  shows "normalize t = []"
proof -
  have "dropWhile isspace t = []" using assms by simp
  then have "str_strip t = []" by (simp only: str_strip_def rev.simps dropWhile.simps)
  then show ?thesis by (simp add: normalize_def str_split_Nil)
qed

lemma normalize_words: "normalize t = str_join (lit '' '') (str_split t)"
  by (simp add: normalize_def str_split_strip)

lemma normalize_trimmed:
  "normalize t = [] \<or> (\<not> isspace (hd (normalize t)) \<and> \<not> isspace (last (normalize t)))"
  unfolding normalize_def using str_split_words by (intro str_join_trimmed) blast

lemmas eval_defs =
  normalize_def str_strip_def str_split.simps isspace_def nonspace_def lit_def
  process_text_input_def prepare_text_def process_file_input_def validate_file_type_def
  validate_file_size_def MAX_FILE_SIZE_def endswith_any_def str_endswith_def str_lower_def
  SUPPORTED_EXTENSIONS_def SUPPORTED_TEXT_EXTENSIONS_def SUPPORTED_DOC_EXTENSIONS_def
  decode_text_file_def ENCODING_FALLBACKS_def bytes_decode_def of_decoded_def is_cont_def
  latin1_decode_def extract_text_from_file_def prepare_text_from_files_def Let_def

lemma decode_loop_fallbacks:
  "decode_loop ENCODING_FALLBACKS bs
     = Some (case utf8_decode (map unat bs) of Some s \<Rightarrow> s | None \<Rightarrow> latin1_decode bs)"
  by (simp add: ENCODING_FALLBACKS_def bytes_decode_def of_decoded_def split: option.split)

lemma prepare_text_as_written:
  "prepare_text A text file =
     (if \<not> truthy text \<and> file = None
      then (Inl (ValueError ''Either 'text' or 'file' must be provided''), [])
      else if truthy text then (process_text_input (the text), [])
      else process_file_input A (the file))"
  by (auto simp: prepare_text_def truthy_def split: option.splits list.splits)

lemma prepare_text_truthy:
  "t \<noteq> [] \<Longrightarrow> prepare_text A (Some t) file = (process_text_input t, [])"
  by (cases t) (simp_all add: prepare_text_def)

lemma prepare_text_falsy:
  "text = None \<or> text = Some [] \<Longrightarrow>
     prepare_text A text file =
       (case file of
          None \<Rightarrow> (Inl (ValueError ''Either 'text' or 'file' must be provided''), [])
        | Some f \<Rightarrow> process_file_input A f)"
  by (auto simp: prepare_text_def)

lemma str_strip_empty_iff: "str_strip s = [] \<longleftrightarrow> (\<forall>c\<in>set s. isspace c)"
proof
  assume e: "str_strip s = []"
  obtain l r where "s = l @ str_strip s @ r" "\<forall>c\<in>set l. isspace c" "\<forall>c\<in>set r. isspace c"
    using str_strip_decomp by blast
  with e have "s = l @ r" by simp
  then show "\<forall>c\<in>set s. isspace c"
    using \<open>\<forall>c\<in>set l. isspace c\<close> \<open>\<forall>c\<in>set r. isspace c\<close> by auto
next
  assume "\<forall>c\<in>set s. isspace c"
  then have "dropWhile isspace s = []" by simp
  then show "str_strip s = []" by (simp only: str_strip_def rev.simps dropWhile.simps)
qed

lemma process_file_input_document:
  assumes "filename f = Some name" and "name \<noteq> []"
    and "validate_file_type name = Inr ()"
    and "\<not> endswith_any (str_lower name) SUPPORTED_TEXT_EXTENSIONS"
    and "payload f = Inr file_content"
    and "validate_file_size file_content name = Inr ()"
  shows "process_file_input A f
           = (extract_text_from_file A file_content name, [FileRead f, FileClosed f])"
  using assms by (simp add: process_file_input_def)

lemma utf8_decode_Cons_nonempty: "utf8_decode (b0 # bs) \<noteq> Some []"
  by (simp split: list.split)

lemma utf8_decode_nonempty: "utf8_decode bs = Some s \<Longrightarrow> bs \<noteq> [] \<Longrightarrow> s \<noteq> []"
  using utf8_decode_Cons_nonempty by (cases bs) auto

lemma validate_file_size_nonempty:
  "validate_file_size file_content name = Inr u \<Longrightarrow> file_content \<noteq> []"
  by (auto simp: validate_file_size_def Let_def split: if_splits)

lemma process_file_input_Inr:
  assumes "fst (process_file_input A f) = Inr s"
  shows "\<exists>name file_content.
           payload f = Inr file_content \<and> validate_file_size file_content name = Inr ()
           \<and> (decode_text_file file_content name = Inr s
                \<or> extract_text_from_file A file_content name = Inr s)"
proof (cases "filename f")
  case None
  with assms show ?thesis by (simp add: process_file_input_def)
next
  case (Some name)
  note n = Some
  show ?thesis
  proof (cases "name = [] \<or> validate_file_type name \<noteq> Inr ()")
    case True
    with assms n show ?thesis
      by (cases "name = []"; cases "validate_file_type name")
        (simp_all add: process_file_input_def)
  next
    case False
    then have v: "name \<noteq> []" "validate_file_type name = Inr ()" by simp_all
    show ?thesis
    proof (cases "payload f")
      case (Inl cause)
      with assms n v show ?thesis by (simp add: process_file_input_def)
    next
      case (Inr file_content)
      note p = Inr
      show ?thesis
      proof (cases "validate_file_size file_content name")
        case (Inl e)
        with assms n v p show ?thesis by (simp add: process_file_input_def)
      next
        case (Inr u)
        then have "validate_file_size file_content name = Inr ()" by simp
        with assms n v p show ?thesis
          by (cases "endswith_any (str_lower name) SUPPORTED_TEXT_EXTENSIONS")
            (auto simp: process_file_input_def)
      qed
    qed
  qed
qed

lemma decode_text_file_nonempty:
  assumes "decode_text_file file_content name = Inr s" and "file_content \<noteq> []"
  shows "s \<noteq> []"
proof -
  have "decode_text_file file_content name
          = Inr (case utf8_decode (map unat file_content) of
                   Some d \<Rightarrow> d | None \<Rightarrow> latin1_decode file_content)"
    by (simp add: decode_text_file_def decode_loop_fallbacks)
  with assms(1) have s:
    "(case utf8_decode (map unat file_content) of
        Some d \<Rightarrow> d | None \<Rightarrow> latin1_decode file_content) = s"
    by simp
  show ?thesis
  proof (cases "utf8_decode (map unat file_content)")
    case None
    with s have "s = map unat file_content" by (simp add: latin1_decode_def)
    then show ?thesis using assms(2) by simp
  next
    case (Some d)
    with s have "utf8_decode (map unat file_content) = Some s" by simp
    moreover have "map unat file_content \<noteq> []" using assms(2) by simp
    ultimately show ?thesis by (rule utf8_decode_nonempty)
  qed
qed

lemma extract_text_from_file_nonempty:
  "extract_text_from_file A file_content name = Inr s \<Longrightarrow> s \<noteq> []"
  by (auto simp: extract_text_from_file_def split: option.splits sum.splits if_splits)

lemma process_text_input_nonempty: "process_text_input t = Inr s \<Longrightarrow> s \<noteq> []"
  by (auto simp: process_text_input_def Let_def split: if_splits)

lemma process_file_input_nonempty:
  assumes "fst (process_file_input A f) = Inr s"
  shows "s \<noteq> []"
proof -
  from process_file_input_Inr [OF assms] obtain name file_content where
    v: "validate_file_size file_content name = Inr ()" and
    d: "decode_text_file file_content name = Inr s
        \<or> extract_text_from_file A file_content name = Inr s"
    by blast
  from v have "file_content \<noteq> []" by (rule validate_file_size_nonempty)
  with d show ?thesis
    using decode_text_file_nonempty extract_text_from_file_nonempty by blast
qed

lemma process_file_input_events:
  "snd (process_file_input A f) = [FileClosed f]
   \<or> snd (process_file_input A f) = [FileRead f, FileClosed f]"
  by (simp add: process_file_input_def split: option.split sum.split)

lemma files_loop_success:
  "list_all2 (\<lambda>f r. fst (process_file_input A f) = Inr r) files rs \<Longrightarrow>
     files_loop A files results
       = (Inr (results @ rs), concat (map (\<lambda>f. snd (process_file_input A f)) files))"
proof (induction files arbitrary: rs results)
  case Nil
  then show ?case by simp
next
  case (Cons f files)
  then obtain r rs' where rs: "rs = r # rs'" "fst (process_file_input A f) = Inr r"
    "list_all2 (\<lambda>f r. fst (process_file_input A f) = Inr r) files rs'"
    by (auto simp: list_all2_Cons1)
  obtain evs where p: "process_file_input A f = (Inr r, evs)"
    using rs(2) by (cases "process_file_input A f") auto
  show ?case
    using Cons.IH [OF rs(3), of "results @ [r]"] p rs(1) by simp
qed

lemma files_loop_failure:
  "list_all2 (\<lambda>f r. fst (process_file_input A f) = Inr r) pre rs \<Longrightarrow>
   fst (process_file_input A f) = Inl e \<Longrightarrow>
     files_loop A (pre @ f # post) results
       = (Inl (HTTPException 400 (FailedToProcessFile (filename f) e)),
          concat (map (\<lambda>g. snd (process_file_input A g)) (pre @ [f])))"
proof (induction pre arbitrary: rs results)
  case Nil
  obtain evs where p: "process_file_input A f = (Inl e, evs)"
    using Nil(2) by (cases "process_file_input A f") auto
  then show ?case by simp
next
  case (Cons g pre)
  then obtain r rs' where rs: "rs = r # rs'" "fst (process_file_input A g) = Inr r"
    "list_all2 (\<lambda>f r. fst (process_file_input A f) = Inr r) pre rs'"
    by (auto simp: list_all2_Cons1)
  obtain evs where p: "process_file_input A g = (Inr r, evs)"
    using rs(2) by (cases "process_file_input A g") auto
  show ?case
    using Cons.IH [OF rs(3) Cons.prems(2), of "results @ [r]"] p by simp
qed

lemma files_loop_Inr:
  "fst (files_loop A files results) = Inr rs \<Longrightarrow>
     \<exists>rs'. rs = results @ rs'
       \<and> list_all2 (\<lambda>f r. fst (process_file_input A f) = Inr r) files rs'"
proof (induction files arbitrary: results)
  case Nil
  then show ?case by simp
next
  case (Cons f files)
  obtain res evs where p: "process_file_input A f = (res, evs)"
    by (cases "process_file_input A f")
  show ?case
  proof (cases res)
    case (Inl e)
    with Cons.prems p show ?thesis by simp
  next
    case (Inr r)
    with Cons.prems p have "fst (files_loop A files (results @ [r])) = Inr rs"
      by (simp split: prod.splits)
    from Cons.IH [OF this] obtain rs' where
      "rs = (results @ [r]) @ rs'"
      "list_all2 (\<lambda>f r. fst (process_file_input A f) = Inr r) files rs'"
      by blast
    then have "rs = results @ (r # rs')
       \<and> list_all2 (\<lambda>f r. fst (process_file_input A f) = Inr r) (f # files) (r # rs')"
      using p Inr by simp
    then show ?thesis by blast
  qed
qed

lemma files_loop_nonempty:
  assumes "fst (files_loop A files []) = Inr rs"
  shows "\<forall>s\<in>set rs. s \<noteq> []"
proof -
  from files_loop_Inr [OF assms]
  have "list_all2 (\<lambda>f r. fst (process_file_input A f) = Inr r) files rs" by simp
  then have "\<forall>s\<in>set rs. \<exists>f. fst (process_file_input A f) = Inr s"
    by (induction files rs rule: list_all2_induct) auto
  then show ?thesis using process_file_input_nonempty by blast
qed

lemma process_file_input_event_set:
  "set (snd (process_file_input A f)) \<subseteq> {FileRead f, FileClosed f}"
  using process_file_input_events [of A f] by auto

lemma batch_events_mention:
  assumes "g \<notin> set fs"
  shows "FileRead g \<notin> set (concat (map (\<lambda>f. snd (process_file_input A f)) fs))
         \<and> FileClosed g \<notin> set (concat (map (\<lambda>f. snd (process_file_input A f)) fs))"
  using assms process_file_input_event_set [of A] by fastforce

lemmas file_defs = notes_txt_def scan_pdf_def report_docx_def report_xlsx_def

lemma eval_notes_txt:
  "process_file_input A notes_txt
     = (Inr (lit ''hello''), [FileRead notes_txt, FileClosed notes_txt])"
  by (simp add: eval_defs notes_txt_def)

lemma eval_report_docx:
  "process_file_input (Some sample_extract) report_docx
     = (Inr [97, 32, 9, 98], [FileRead report_docx, FileClosed report_docx])"
  by (simp add: eval_defs report_docx_def sample_extract_def)

lemma eval_report_xlsx:
  "process_file_input A report_xlsx
     = (Inl (HTTPException 415
          (Literal ''Unsupported file type. Supported types: .txt, .rtf, .pdf, .doc, .docx'')),
        [FileClosed report_xlsx])"
  by (simp add: eval_defs report_xlsx_def)

lemma eval_scan_pdf_unavailable:
  "process_file_input None scan_pdf
     = (Inl (HTTPException 500
          (Literal ''Text extraction not available. Please install textxtract library.'')),
        [FileRead scan_pdf, FileClosed scan_pdf])"
  by (simp add: eval_defs scan_pdf_def)

lemma eval_huge_txt:
  "process_file_input A huge_txt
     = (Inl (HTTPException 413 (Literal ''File too large. Maximum size is 10.0MB'')),
        [FileRead huge_txt, FileClosed huge_txt])"
proof -
  have n: "filename huge_txt = Some (lit ''huge.txt'')"
    and p: "payload huge_txt = Inr (replicate 10485761 0x61)"
    by (simp_all add: huge_txt_def)
  have t: "lit ''huge.txt'' \<noteq> []" "validate_file_type (lit ''huge.txt'') = Inr ()"
    by (simp_all add: eval_defs)
  have s: "validate_file_size (replicate 10485761 0x61) (lit ''huge.txt'')
             = Inl (HTTPException 413 (Literal ''File too large. Maximum size is 10.0MB''))"
    by (simp add: validate_file_size_def MAX_FILE_SIZE_def)
  show ?thesis
    unfolding process_file_input_def n p by (simp add: t s)
qed

lemma prepare_text_file_only: "prepare_text A None (Some f) = process_file_input A f"
  by (simp add: prepare_text_def)

lemma batch_failure_status:
  assumes "fst (prepare_text_from_files A files) = Inl e" and "files \<noteq> []"
  shows "status_code e = 400"
proof -
  have "fst (files_loop A fs acc) = Inl e \<Longrightarrow> status_code e = 400" for fs acc
  proof (induction fs arbitrary: acc)
    case Nil
    then show ?case by simp
  next
    case (Cons f fs)
    obtain res evs where p: "process_file_input A f = (res, evs)"
      by (cases "process_file_input A f")
    show ?case
    proof (cases res)
      case (Inl x)
      with Cons.prems p show ?thesis by auto
    next
      case (Inr r)
      with Cons.prems p have "fst (files_loop A fs (acc @ [r])) = Inl e"
        by (simp split: prod.splits)
      then show ?thesis by (rule Cons.IH)
    qed
  qed
  with assms show ?thesis by (simp add: prepare_text_from_files_def)
qed


section \<open>Text normalization\<close>

text \<open>
  C9. Normalizing twice is normalizing once: for every string \<open>t\<close>, stripping and
  collapsing the whitespace of an already normalized text gives that text back, that is
  \<open>normalize (normalize t) = normalize t\<close>.
\<close>

theorem normalize_idempotent: "normalize (normalize t) = normalize t"
  by (rule normalize_fixed)

text \<open>
  C6, for text that is not the empty string. For every non-empty text \<open>t\<close>, with or
  without a file, \<open>prepare_text\<close> takes the text path and touches no upload: it returns
  the normalized text when that is not empty and fails with
  \<open>ValueError "Provided text is empty after processing"\<close> when it is. The normalized
  text is the words of \<open>t\<close> (its maximal runs of non-whitespace characters, in order)
  joined by single ASCII spaces, so it neither starts nor ends with whitespace and every
  run of whitespace inside \<open>t\<close>, newlines and tabs included, has become one space.
  The empty string is excluded: it counts as no text at all, see
  \<open>text_path_counterexample\<close> below.
\<close>

theorem text_path_normalizes:
  assumes "t \<noteq> []"
  shows "prepare_text A (Some t) file
           = (if normalize t = []
              then Inl (ValueError ''Provided text is empty after processing'')
              else Inr (normalize t), [])
         \<and> normalize t = str_join (lit '' '') (str_split t)
         \<and> (\<forall>w\<in>set (str_split t). w \<noteq> [] \<and> (\<forall>c\<in>set w. \<not> isspace c))
         \<and> concat (str_split t) = filter nonspace t
         \<and> (normalize t = []
              \<or> (\<not> isspace (hd (normalize t)) \<and> \<not> isspace (last (normalize t))))"
proof -
  have "prepare_text A (Some t) file
           = (if normalize t = []
              then Inl (ValueError ''Provided text is empty after processing'')
              else Inr (normalize t), [])"
    using assms by (simp add: prepare_text_truthy process_text_input_def)
  moreover have "\<forall>w\<in>set (str_split t). w \<noteq> [] \<and> (\<forall>c\<in>set w. \<not> isspace c)"
    using str_split_words by blast
  ultimately show ?thesis
    using normalize_words [of t] concat_str_split [of t] normalize_trimmed [of t]
    by blast
qed

text \<open>The statement at concrete inputs.\<close>

theorem text_path_normalizes_witness:
  "prepare_text None (Some [32, 9, 104, 105, 10, 13, 32, 116, 111, 32, 32]) None
     = (Inr [104, 105, 32, 116, 111], [])
   \<and> prepare_text None (Some [32, 10]) None
     = (Inl (ValueError ''Provided text is empty after processing''), [])
   \<and> str_split [32, 9, 104, 105, 10, 13, 32, 116, 111, 32, 32] = [[104, 105], [116, 111]]"
proof -
  have a: "[32, 9, 104, 105, 10, 13, 32, 116, 111, 32, 32] \<noteq> ([] :: pystr)" by simp
  have b: "[32, 10] \<noteq> ([] :: pystr)" by simp
  have n: "normalize [32, 9, 104, 105, 10, 13, 32, 116, 111, 32, 32] = [104, 105, 32, 116, 111]"
    "normalize [32, 10] = []"
    "str_split [32, 9, 104, 105, 10, 13, 32, 116, 111, 32, 32] = [[104, 105], [116, 111]]"
    by (simp_all add: eval_defs)
  show ?thesis
    using text_path_normalizes [OF a, of None None, THEN conjunct1]
      text_path_normalizes [OF b, of None None, THEN conjunct1] n
    by simp
qed

text \<open>
  The empty string shows why the statement above excludes it. Its normalization is empty,
  yet \<open>prepare_text\<close> does not fail with the error of the text path: without a file
  it fails with the error for a missing source, and with a file it processes the file.
\<close>

theorem text_path_counterexample:
  "normalize [] = []
   \<and> prepare_text None (Some []) None
       = (Inl (ValueError ''Either 'text' or 'file' must be provided''), [])
   \<and> fst (prepare_text None (Some []) None)
       \<noteq> Inl (ValueError ''Provided text is empty after processing'')
   \<and> fst (prepare_text None (Some []) (Some notes_txt)) = Inr (lit ''hello'')"
  by (simp add: eval_defs notes_txt_def)


section \<open>Choice of the input source\<close>

text \<open>
  C1. \<open>prepare_text\<close> chooses its source as follows. With no file, a text that is
  \<open>None\<close> or the empty string fails with
  \<open>ValueError "Either 'text' or 'file' must be provided"\<close>. With a non-empty text and a
  file, the result is that of the text alone and the file is neither read nor closed (the
  list of events is empty). With the empty string, or no text, and a file, the result is
  that of processing the file.
\<close>

theorem prepare_text_arbitration:
  "((text = None \<or> text = Some []) \<longrightarrow>
      prepare_text A text None
        = (Inl (ValueError ''Either 'text' or 'file' must be provided''), []))
   \<and> (t \<noteq> [] \<longrightarrow>
        prepare_text A (Some t) (Some f) = (process_text_input t, [])
        \<and> snd (prepare_text A (Some t) (Some f)) = []
        \<and> prepare_text A (Some t) (Some f) = prepare_text A (Some t) None)
   \<and> prepare_text A (Some []) (Some f) = process_file_input A f
   \<and> prepare_text A None (Some f) = process_file_input A f"
  by (auto simp: prepare_text_truthy prepare_text_falsy)

text \<open>The statement at concrete inputs.\<close>

theorem prepare_text_arbitration_witness:
  "prepare_text None None None
     = (Inl (ValueError ''Either 'text' or 'file' must be provided''), [])
   \<and> prepare_text None (Some []) None
     = (Inl (ValueError ''Either 'text' or 'file' must be provided''), [])
   \<and> prepare_text None (Some (lit ''hello world'')) (Some notes_txt)
     = (Inr (lit ''hello world''), [])
   \<and> prepare_text None (Some []) (Some notes_txt)
     = (Inr (lit ''hello''), [FileRead notes_txt, FileClosed notes_txt])"
proof -
  have ne: "lit ''hello world'' \<noteq> []" by (simp add: lit_def)
  have t: "process_text_input (lit ''hello world'') = Inr (lit ''hello world'')"
    by (simp add: eval_defs)
  have f: "process_file_input None notes_txt
             = (Inr (lit ''hello''), [FileRead notes_txt, FileClosed notes_txt])"
    by (simp add: eval_defs notes_txt_def)
  show ?thesis
    using prepare_text_arbitration [of None None "lit ''hello world''" notes_txt]
      prepare_text_arbitration [of "Some []" None "lit ''hello world''" notes_txt]
      ne t f
    by simp
qed

text \<open>
  C10. A text that is not empty but consists of whitespace only is still taken as the
  source when a file comes with it: the call fails with
  \<open>ValueError "Provided text is empty after processing"\<close> and the file is neither read
  nor closed, although the same file without the text is processed successfully.
\<close>

theorem whitespace_text_shadows_file:
  assumes "t \<noteq> []" and "\<forall>c\<in>set t. isspace c"
    and "fst (process_file_input A f) = Inr s"
  shows "prepare_text A (Some t) (Some f)
           = (Inl (ValueError ''Provided text is empty after processing''), [])
         \<and> prepare_text A (Some t) (Some f) = (process_text_input t, [])
         \<and> FileRead f \<notin> set (snd (prepare_text A (Some t) (Some f)))
         \<and> fst (prepare_text A None (Some f)) = Inr s"
  using assms
  by (simp add: prepare_text_truthy prepare_text_falsy process_text_input_def
      normalize_all_space)

text \<open>The statement at concrete inputs.\<close>

theorem whitespace_text_shadows_file_witness:
  "prepare_text None (Some [32, 9, 10]) (Some notes_txt)
     = (Inl (ValueError ''Provided text is empty after processing''), [])
   \<and> fst (prepare_text None None (Some notes_txt)) = Inr (lit ''hello'')"
proof -
  have a: "[32, 9, 10] \<noteq> ([] :: pystr)" by simp
  have b: "\<forall>c\<in>set [32, 9, 10]. isspace c" by (simp add: isspace_def)
  have c: "fst (process_file_input None notes_txt) = Inr (lit ''hello'')"
    by (simp add: eval_defs notes_txt_def)
  show ?thesis
    using whitespace_text_shadows_file [OF a b c] by simp
qed


section \<open>Size validation\<close>

text \<open>
  C7. \<open>_validate_file_size\<close> at its boundaries: a payload of 0 octets is rejected as
  empty (400, \<open>File is empty\<close>); a payload of \<open>MAX_FILE_SIZE + 1\<close> octets is rejected as
  too large (413); a payload of exactly \<open>MAX_FILE_SIZE\<close> octets passes; and the 413
  error is raised exactly when the length is strictly above \<open>MAX_FILE_SIZE\<close>, which is
  10 MiB.
\<close>

theorem validate_file_size_boundary:
  "(length file_content = 0 \<longrightarrow>
      validate_file_size file_content name = Inl (HTTPException 400 (Literal ''File is empty'')))
   \<and> (length file_content = MAX_FILE_SIZE + 1 \<longrightarrow>
      validate_file_size file_content name
        = Inl (HTTPException 413 (Literal ''File too large. Maximum size is 10.0MB'')))
   \<and> (length file_content = MAX_FILE_SIZE \<longrightarrow> validate_file_size file_content name = Inr ())
   \<and> ((\<exists>m. validate_file_size file_content name = Inl (HTTPException 413 m))
        = (MAX_FILE_SIZE < length file_content))
   \<and> MAX_FILE_SIZE = 10485760"
  by (auto simp: validate_file_size_def MAX_FILE_SIZE_def Let_def)

text \<open>The statement at concrete inputs.\<close>

theorem validate_file_size_boundary_witness:
  "validate_file_size [] (lit ''a.txt'') = Inl (HTTPException 400 (Literal ''File is empty''))
   \<and> validate_file_size (replicate (MAX_FILE_SIZE + 1) 0) (lit ''a.txt'')
        = Inl (HTTPException 413 (Literal ''File too large. Maximum size is 10.0MB''))
   \<and> validate_file_size (replicate MAX_FILE_SIZE 0) (lit ''a.txt'') = Inr ()"
proof -
  have a: "length ([] :: byte list) = 0" by simp
  have b: "length (replicate (MAX_FILE_SIZE + 1) (0 :: byte)) = MAX_FILE_SIZE + 1"
    by (rule length_replicate)
  have c: "length (replicate MAX_FILE_SIZE (0 :: byte)) = MAX_FILE_SIZE"
    by (rule length_replicate)
  show ?thesis
    using validate_file_size_boundary [of "[]" "lit ''a.txt''"]
      validate_file_size_boundary [of "replicate (MAX_FILE_SIZE + 1) 0" "lit ''a.txt''"]
      validate_file_size_boundary [of "replicate MAX_FILE_SIZE 0" "lit ''a.txt''"]
      a b c
    by blast
qed


section \<open>Decoding with fallbacks\<close>

text \<open>
  C5. \<open>_decode_text_file\<close> returns a string for every sequence of octets, the non-empty
  ones in particular: the UTF-8 decoding when the octets are valid UTF-8, and the latin-1
  decoding otherwise, latin-1 being the second entry of \<open>ENCODING_FALLBACKS\<close> and
  accepting every sequence. The loop never falls through, so the error raised behind it
  is never the result.
\<close>

theorem decode_text_file_total:
  "decode_text_file file_content name
     = Inr (case utf8_decode (map unat file_content) of
              Some decoded \<Rightarrow> decoded
            | None \<Rightarrow> latin1_decode file_content)
   \<and> (\<exists>decoded. decode_text_file file_content name = Inr decoded)
   \<and> (\<forall>e. decode_text_file file_content name \<noteq> Inl e)
   \<and> decode_loop ENCODING_FALLBACKS file_content \<noteq> None
   \<and> bytes_decode file_content ''latin-1'' = Decoded (latin1_decode file_content)"
  by (simp add: decode_text_file_def decode_loop_fallbacks bytes_decode_def)

text \<open>The statement at concrete inputs.\<close>

theorem decode_text_file_total_witness:
  "decode_text_file [0x68, 0xC3, 0xA9] (lit ''a.txt'') = Inr [104, 233]
   \<and> bytes_decode [0x68, 0xE9] ''utf-8'' = UnicodeDecodeError
   \<and> decode_text_file [0x68, 0xE9] (lit ''a.txt'') = Inr [104, 233]"
proof -
  have u: "utf8_decode (map unat [0x68, 0xC3, 0xA9 :: byte]) = Some [104, 233]"
    "utf8_decode (map unat [0x68, 0xE9 :: byte]) = None"
    "latin1_decode [0x68, 0xE9] = [104, 233]"
    by (simp_all add: is_cont_def latin1_decode_def)
  have "decode_text_file [0x68, 0xC3, 0xA9] (lit ''a.txt'') = Inr [104, 233]"
    using decode_text_file_total [of "[0x68, 0xC3, 0xA9]" "lit ''a.txt''", THEN conjunct1] u
    by simp
  moreover have "decode_text_file [0x68, 0xE9] (lit ''a.txt'') = Inr [104, 233]"
    using decode_text_file_total [of "[0x68, 0xE9]" "lit ''a.txt''", THEN conjunct1] u
    by simp
  moreover have "bytes_decode [0x68, 0xE9] ''utf-8'' = UnicodeDecodeError"
    using u by (simp add: bytes_decode_def of_decoded_def)
  ultimately show ?thesis by blast
qed


section \<open>Extraction of documents\<close>

text \<open>
  C8. When the extraction capability is available and returns a text for the payload,
  \<open>_extract_text_from_file\<close> fails with the 400 error \<open>No text could be extracted\<close> if
  that text is empty or all whitespace, and otherwise returns it stripped: the returned
  string is the extracted text without a whitespace-only prefix and suffix, it neither
  starts nor ends with whitespace, and nothing inside it is changed. This is the result of
  \<open>_process_file_input\<close> for every upload whose name passes the type validation without
  having a plain-text suffix and whose payload passes the size validation.
\<close>

theorem extraction_delegate_path:
  assumes "capability file_content name = Inr extracted"
  shows "extract_text_from_file (Some capability) file_content name
           = (if extracted = [] \<or> (\<forall>c\<in>set extracted. isspace c)
              then Inl (HTTPException 400 (NoTextExtracted name))
              else Inr (str_strip extracted))
         \<and> (\<exists>l r. extracted = l @ str_strip extracted @ r
                \<and> (\<forall>c\<in>set l. isspace c) \<and> (\<forall>c\<in>set r. isspace c))
         \<and> (str_strip extracted = []
              \<or> (\<not> isspace (hd (str_strip extracted))
                  \<and> \<not> isspace (last (str_strip extracted))))
         \<and> (filename f = Some name \<and> name \<noteq> [] \<and> validate_file_type name = Inr ()
              \<and> \<not> endswith_any (str_lower name) SUPPORTED_TEXT_EXTENSIONS
              \<and> payload f = Inr file_content
              \<and> validate_file_size file_content name = Inr ()
            \<longrightarrow> fst (process_file_input (Some capability) f)
                  = extract_text_from_file (Some capability) file_content name)"
proof -
  have "extract_text_from_file (Some capability) file_content name
           = (if extracted = [] \<or> (\<forall>c\<in>set extracted. isspace c)
              then Inl (HTTPException 400 (NoTextExtracted name))
              else Inr (str_strip extracted))"
    using assms by (auto simp: extract_text_from_file_def str_strip_empty_iff)
  then show ?thesis
    using str_strip_decomp [of extracted] str_strip_trimmed [of extracted]
    by (simp add: process_file_input_document)
qed

text \<open>The statement at concrete inputs.\<close>

theorem extraction_delegate_path_witness:
  "extract_text_from_file (Some sample_extract) [0x25, 0x50, 0x44, 0x46] (lit ''scan.PDF'')
     = Inl (HTTPException 400 (NoTextExtracted (lit ''scan.PDF'')))
   \<and> fst (process_file_input (Some sample_extract) scan_pdf)
     = Inl (HTTPException 400 (NoTextExtracted (lit ''scan.PDF'')))
   \<and> extract_text_from_file (Some sample_extract) [0x25] (lit ''a.docx'')
     = Inr [97, 32, 9, 98]"
proof -
  have a: "sample_extract [0x25, 0x50, 0x44, 0x46] (lit ''scan.PDF'') = Inr [32, 10, 32]"
    by (simp add: sample_extract_def)
  have b: "sample_extract [0x25] (lit ''a.docx'') = Inr [32, 97, 32, 9, 98, 10]"
    by (simp add: sample_extract_def)
  have c: "filename scan_pdf = Some (lit ''scan.PDF'') \<and> lit ''scan.PDF'' \<noteq> []
      \<and> validate_file_type (lit ''scan.PDF'') = Inr ()
      \<and> \<not> endswith_any (str_lower (lit ''scan.PDF'')) SUPPORTED_TEXT_EXTENSIONS
      \<and> payload scan_pdf = Inr [0x25, 0x50, 0x44, 0x46]
      \<and> validate_file_size [0x25, 0x50, 0x44, 0x46] (lit ''scan.PDF'') = Inr ()"
    by (simp add: eval_defs scan_pdf_def)
  have d: "str_strip [32, 97, 32, 9, 98, 10] = [97, 32, 9, 98]"
    "\<forall>c\<in>set [32, 10, 32]. isspace c" "\<not> (\<forall>c\<in>set [32, 97, 32, 9, 98, 10]. isspace c)"
    by (simp_all add: str_strip_def isspace_def)
  from extraction_delegate_path [where capability = sample_extract and f = scan_pdf, OF a] c d
  have 1: "extract_text_from_file (Some sample_extract) [0x25, 0x50, 0x44, 0x46] (lit ''scan.PDF'')
     = Inl (HTTPException 400 (NoTextExtracted (lit ''scan.PDF'')))"
   and 2: "fst (process_file_input (Some sample_extract) scan_pdf)
     = Inl (HTTPException 400 (NoTextExtracted (lit ''scan.PDF'')))"
    by simp_all
  from extraction_delegate_path [where capability = sample_extract and f = scan_pdf,
      OF b, THEN conjunct1] d
  have 3: "extract_text_from_file (Some sample_extract) [0x25] (lit ''a.docx'')
     = Inr [97, 32, 9, 98]"
    by simp
  show ?thesis using 1 2 3 by blast
qed


section \<open>Results are never empty\<close>

text \<open>
  C4. Every string that \<open>prepare_text\<close> returns is non-empty, whether it comes from the
  text, from a decoded plain-text file or from the extraction capability, and so is every
  element of a list that \<open>prepare_text_from_files\<close> returns.
\<close>

theorem results_nonempty:
  "(fst (prepare_text A text file) = Inr s \<longrightarrow> s \<noteq> [])
   \<and> (fst (prepare_text_from_files A files) = Inr rs \<longrightarrow> (\<forall>r\<in>set rs. r \<noteq> []))"
proof (intro conjI impI)
  assume a: "fst (prepare_text A text file) = Inr s"
  show "s \<noteq> []"
  proof (cases "text = None \<or> text = Some []")
    case True
    with a show ?thesis
      by (cases "file") (auto simp: prepare_text_falsy dest: process_file_input_nonempty)
  next
    case False
    then obtain t where "text = Some t" "t \<noteq> []" by auto
    with a show ?thesis
      by (auto simp: prepare_text_truthy dest: process_text_input_nonempty)
  qed
next
  assume "fst (prepare_text_from_files A files) = Inr rs"
  then have "fst (files_loop A files []) = Inr rs"
    by (simp add: prepare_text_from_files_def split: if_splits)
  then show "\<forall>r\<in>set rs. r \<noteq> []" by (rule files_loop_nonempty)
qed

text \<open>The statement at concrete inputs.\<close>

theorem results_nonempty_witness:
  "fst (prepare_text None (Some [32, 104, 105]) None) = Inr [104, 105]
   \<and> [104, 105] \<noteq> ([] :: pystr)
   \<and> fst (prepare_text None None (Some notes_txt)) = Inr (lit ''hello'')
   \<and> lit ''hello'' \<noteq> []
   \<and> fst (prepare_text (Some sample_extract) None (Some report_docx)) = Inr [97, 32, 9, 98]
   \<and> [97, 32, 9, 98] \<noteq> ([] :: pystr)
   \<and> fst (prepare_text_from_files (Some sample_extract) [notes_txt, report_docx])
       = Inr [lit ''hello'', [97, 32, 9, 98]]
   \<and> [] \<notin> set [lit ''hello'', [97, 32, 9, 98]]"
proof -
  have a: "fst (prepare_text None (Some [32, 104, 105]) None) = Inr [104, 105]"
    by (simp add: eval_defs)
  have b: "fst (prepare_text None None (Some notes_txt)) = Inr (lit ''hello'')"
    by (simp add: prepare_text_file_only eval_notes_txt)
  have c: "fst (prepare_text (Some sample_extract) None (Some report_docx))
             = Inr [97, 32, 9, 98]"
    by (simp add: prepare_text_file_only eval_report_docx)
  have d: "fst (prepare_text_from_files (Some sample_extract) [notes_txt, report_docx])
             = Inr [lit ''hello'', [97, 32, 9, 98]]"
    by (simp add: prepare_text_from_files_def eval_notes_txt eval_report_docx)
  have "[104, 105] \<noteq> ([] :: pystr)"
    using results_nonempty [of None "Some [32, 104, 105]" None "[104, 105]"] a by blast
  moreover have "lit ''hello'' \<noteq> []"
    using results_nonempty [of None None "Some notes_txt" "lit ''hello''"] b by blast
  moreover have "[97, 32, 9, 98] \<noteq> ([] :: pystr)"
    using results_nonempty [of "Some sample_extract" None "Some report_docx" "[97, 32, 9, 98]"] c
    by blast
  moreover have "\<forall>r\<in>set [lit ''hello'', [97, 32, 9, 98]]. r \<noteq> []"
    using results_nonempty [where A = "Some sample_extract"
        and files = "[notes_txt, report_docx]" and rs = "[lit ''hello'', [97, 32, 9, 98]]"] d
    by blast
  then have "[] \<notin> set [lit ''hello'', [97, 32, 9, 98]]" by blast
  ultimately show ?thesis using a b c d by blast
qed


section \<open>Batches of files\<close>

text \<open>
  C2. \<open>prepare_text_from_files\<close> fails with
  \<open>ValueError "At least one file must be provided"\<close> on the empty list. When it returns
  a list, that list has one entry per file, the entry at each position being the text of
  the file at that position; and it does return that list whenever every file is processed
  successfully. When a file fails after all files before it succeeded, the call fails at
  once with a 400 error that carries the name of that file and the error it raised; the
  events are those of the files up to the failing one, and no file behind it is read or
  closed (unless the same upload also occurs before).
\<close>

theorem batch_semantics:
  "prepare_text_from_files A [] = (Inl (ValueError ''At least one file must be provided''), [])
   \<and> (fst (prepare_text_from_files A files) = Inr rs \<longrightarrow>
        length rs = length files
        \<and> (\<forall>i<length files. fst (process_file_input A (files ! i)) = Inr (rs ! i)))
   \<and> (files \<noteq> [] \<and> list_all2 (\<lambda>f r. fst (process_file_input A f) = Inr r) files rs \<longrightarrow>
        prepare_text_from_files A files
          = (Inr rs, concat (map (\<lambda>f. snd (process_file_input A f)) files)))
   \<and> (list_all2 (\<lambda>f r. fst (process_file_input A f) = Inr r) pre rs'
        \<and> fst (process_file_input A f) = Inl e \<longrightarrow>
        prepare_text_from_files A (pre @ f # post)
          = (Inl (HTTPException 400 (FailedToProcessFile (filename f) e)),
             concat (map (\<lambda>g. snd (process_file_input A g)) (pre @ [f])))
        \<and> (\<forall>g\<in>set post. g \<notin> set (pre @ [f]) \<longrightarrow>
              FileRead g \<notin> set (snd (prepare_text_from_files A (pre @ f # post)))
              \<and> FileClosed g \<notin> set (snd (prepare_text_from_files A (pre @ f # post)))))"
proof (intro conjI impI)
  show "prepare_text_from_files A []
          = (Inl (ValueError ''At least one file must be provided''), [])"
    by (simp add: prepare_text_from_files_def)
next
  assume "fst (prepare_text_from_files A files) = Inr rs"
  then have "fst (files_loop A files []) = Inr rs"
    by (simp add: prepare_text_from_files_def split: if_splits)
  from files_loop_Inr [OF this]
  have "list_all2 (\<lambda>f r. fst (process_file_input A f) = Inr r) files rs" by simp
  then show "length rs = length files"
    and "\<forall>i<length files. fst (process_file_input A (files ! i)) = Inr (rs ! i)"
    by (simp_all add: list_all2_conv_all_nth)
next
  assume "files \<noteq> [] \<and> list_all2 (\<lambda>f r. fst (process_file_input A f) = Inr r) files rs"
  then show "prepare_text_from_files A files
          = (Inr rs, concat (map (\<lambda>f. snd (process_file_input A f)) files))"
    using files_loop_success [of A files rs "[]"] by (simp add: prepare_text_from_files_def)
next
  assume a: "list_all2 (\<lambda>f r. fst (process_file_input A f) = Inr r) pre rs'
        \<and> fst (process_file_input A f) = Inl e"
  then have l: "files_loop A (pre @ f # post) []
       = (Inl (HTTPException 400 (FailedToProcessFile (filename f) e)),
          concat (map (\<lambda>g. snd (process_file_input A g)) (pre @ [f])))"
    using files_loop_failure [of A pre rs' f e post "[]"] by blast
  then show r: "prepare_text_from_files A (pre @ f # post)
          = (Inl (HTTPException 400 (FailedToProcessFile (filename f) e)),
             concat (map (\<lambda>g. snd (process_file_input A g)) (pre @ [f])))"
    by (simp add: prepare_text_from_files_def)
  show "\<forall>g\<in>set post. g \<notin> set (pre @ [f]) \<longrightarrow>
              FileRead g \<notin> set (snd (prepare_text_from_files A (pre @ f # post)))
              \<and> FileClosed g \<notin> set (snd (prepare_text_from_files A (pre @ f # post)))"
    unfolding r snd_conv using batch_events_mention [of _ "pre @ [f]" A] by blast
qed

text \<open>The statement at concrete inputs.\<close>

theorem batch_semantics_witness:
  "prepare_text_from_files (Some sample_extract) []
     = (Inl (ValueError ''At least one file must be provided''), [])
   \<and> prepare_text_from_files (Some sample_extract) [notes_txt, report_docx]
     = (Inr [lit ''hello'', [97, 32, 9, 98]],
        [FileRead notes_txt, FileClosed notes_txt, FileRead report_docx, FileClosed report_docx])
   \<and> prepare_text_from_files (Some sample_extract) [notes_txt, report_xlsx, report_docx]
     = (Inl (HTTPException 400
          (FailedToProcessFile (Some (lit ''report.xlsx''))
            (HTTPException 415
              (Literal ''Unsupported file type. Supported types: .txt, .rtf, .pdf, .doc, .docx'')))),
        [FileRead notes_txt, FileClosed notes_txt, FileClosed report_xlsx])
   \<and> FileRead report_docx
       \<notin> set (snd (prepare_text_from_files (Some sample_extract)
                      [notes_txt, report_xlsx, report_docx]))"
proof -
  let ?A = "Some sample_extract"
  let ?e = "HTTPException 415
              (Literal ''Unsupported file type. Supported types: .txt, .rtf, .pdf, .doc, .docx'')"
  have ok: "[notes_txt, report_docx] \<noteq> []
      \<and> list_all2 (\<lambda>f r. fst (process_file_input ?A f) = Inr r)
          [notes_txt, report_docx] [lit ''hello'', [97, 32, 9, 98]]"
    by (simp add: eval_notes_txt eval_report_docx)
  have bad: "list_all2 (\<lambda>f r. fst (process_file_input ?A f) = Inr r) [notes_txt] [lit ''hello'']
      \<and> fst (process_file_input ?A report_xlsx) = Inl ?e"
    by (simp add: eval_notes_txt eval_report_xlsx)
  have later: "report_docx \<in> set [report_docx]"
    "report_docx \<notin> set ([notes_txt] @ [report_xlsx])"
    by (simp_all add: file_defs lit_def)
  note b = batch_semantics [where A = ?A and files = "[notes_txt, report_docx]"
      and rs = "[lit ''hello'', [97, 32, 9, 98]]" and pre = "[notes_txt]"
      and rs' = "[lit ''hello'']" and f = report_xlsx and e = ?e and post = "[report_docx]"]
  have 1: "prepare_text_from_files ?A []
     = (Inl (ValueError ''At least one file must be provided''), [])"
    using b by blast
  have 2: "prepare_text_from_files ?A [notes_txt, report_docx]
     = (Inr [lit ''hello'', [97, 32, 9, 98]],
        concat (map (\<lambda>f. snd (process_file_input ?A f)) [notes_txt, report_docx]))"
    using b ok by blast
  have 3: "prepare_text_from_files ?A ([notes_txt] @ report_xlsx # [report_docx])
     = (Inl (HTTPException 400 (FailedToProcessFile (filename report_xlsx) ?e)),
        concat (map (\<lambda>g. snd (process_file_input ?A g)) ([notes_txt] @ [report_xlsx])))"
    using b bad by blast
  have 4: "FileRead report_docx
       \<notin> set (snd (prepare_text_from_files ?A ([notes_txt] @ report_xlsx # [report_docx])))"
    using b bad later by blast
  have n: "filename report_xlsx = Some (lit ''report.xlsx'')"
    by (simp add: report_xlsx_def)
  show ?thesis
    using 1 2 3 4 by (simp add: eval_notes_txt eval_report_docx eval_report_xlsx n)
qed

text \<open>
  C3, evaluated. For an upload with an unsupported suffix, \<open>prepare_text\<close> fails with
  the 415 error whose detail lists all supported suffixes, for an upload above the size
  limit with the 413 error, and for a document when the extraction library is missing with
  the 500 error. \<open>prepare_text_from_files\<close> on the list holding just that upload does not
  keep these: the \<open>except Exception\<close> clause of its loop also catches the
  \<open>HTTPException\<close> of \<open>_process_file_input\<close> and raises a new one with status 400 in
  its place, the original error being left only as text inside the detail.
\<close>

theorem batch_replaces_status:
  "prepare_text None None (Some report_xlsx)
     = (Inl (HTTPException 415
          (Literal ''Unsupported file type. Supported types: .txt, .rtf, .pdf, .doc, .docx'')),
        [FileClosed report_xlsx])
   \<and> prepare_text_from_files None [report_xlsx]
     = (Inl (HTTPException 400
          (FailedToProcessFile (Some (lit ''report.xlsx''))
            (HTTPException 415
              (Literal ''Unsupported file type. Supported types: .txt, .rtf, .pdf, .doc, .docx'')))),
        [FileClosed report_xlsx])
   \<and> prepare_text None None (Some huge_txt)
     = (Inl (HTTPException 413 (Literal ''File too large. Maximum size is 10.0MB'')),
        [FileRead huge_txt, FileClosed huge_txt])
   \<and> prepare_text_from_files None [huge_txt]
     = (Inl (HTTPException 400
          (FailedToProcessFile (Some (lit ''huge.txt''))
            (HTTPException 413 (Literal ''File too large. Maximum size is 10.0MB'')))),
        [FileRead huge_txt, FileClosed huge_txt])
   \<and> prepare_text None None (Some scan_pdf)
     = (Inl (HTTPException 500
          (Literal ''Text extraction not available. Please install textxtract library.'')),
        [FileRead scan_pdf, FileClosed scan_pdf])
   \<and> prepare_text_from_files None [scan_pdf]
     = (Inl (HTTPException 400
          (FailedToProcessFile (Some (lit ''scan.PDF''))
            (HTTPException 500
              (Literal ''Text extraction not available. Please install textxtract library.'')))),
        [FileRead scan_pdf, FileClosed scan_pdf])"
proof -
  have n: "filename report_xlsx = Some (lit ''report.xlsx'')"
    "filename huge_txt = Some (lit ''huge.txt'')"
    "filename scan_pdf = Some (lit ''scan.PDF'')"
    by (simp_all add: report_xlsx_def huge_txt_def scan_pdf_def)
  show ?thesis
    by (simp add: prepare_text_file_only prepare_text_from_files_def eval_report_xlsx
        eval_huge_txt eval_scan_pdf_unavailable n)
qed

end
